theory Spec2Isabelle
  imports Complex_Main "HOL-Library.Multiset" "HOL-Library.AList" "HOL-Library.Char_ord"
    "HOL-Library.List_Lexorder"
begin

section \<open>Text\<close>

text \<open>
  Python strings are modelled as HOL strings. The character classes are the ASCII part of
  what \<^verbatim>\<open>str.strip\<close>, \<^verbatim>\<open>str.upper\<close> and the pattern class \<^verbatim>\<open>\d\<close> use:
  whitespace is 0x09..0x0D, 0x1C..0x1F and 0x20, the cased letters are a..z and A..Z, the
  decimal digits are 0..9. A character outside ASCII is neither whitespace nor a digit and
  has no case.
\<close>

definition is_space :: "char \<Rightarrow> bool" where
  "is_space c = (c \<in> set [CHR 0x09, CHR 0x0A, CHR 0x0B, CHR 0x0C, CHR 0x0D,
                            CHR 0x1C, CHR 0x1D, CHR 0x1E, CHR 0x1F, CHR 0x20])"

definition is_upper :: "char \<Rightarrow> bool" where
  "is_upper c = (c \<in> set ''ABCDEFGHIJKLMNOPQRSTUVWXYZ'')"


definition is_digit :: "char \<Rightarrow> bool" where
  "is_digit c = (c \<in> set ''0123456789'')"

definition upper_char :: "char \<Rightarrow> char" where
  "upper_char c =
     (case map_of (zip ''abcdefghijklmnopqrstuvwxyz'' ''ABCDEFGHIJKLMNOPQRSTUVWXYZ'') c of
        Some u \<Rightarrow> u
      | None \<Rightarrow> c)"

text \<open>\<^verbatim>\<open>s.strip()\<close>: whitespace is removed at both ends.\<close>

definition strip :: "string \<Rightarrow> string" where
  "strip s = rev (dropWhile is_space (rev (dropWhile is_space s)))"

text \<open>\<^verbatim>\<open>s.upper()\<close>.\<close>

definition upper :: "string \<Rightarrow> string" where
  "upper s = map upper_char s"

text \<open>
  \<^verbatim>\<open>s.zfill(width)\<close>: zeros are added on the left up to the width, after a
  leading sign if there is one.
\<close>

definition zfill :: "nat \<Rightarrow> string \<Rightarrow> string" where
  "zfill width s =
     (if width \<le> length s then s
      else (case s of
              [] \<Rightarrow> replicate width (CHR ''0'')
            | c # cs \<Rightarrow>
                if c = CHR ''+'' \<or> c = CHR ''-''
                then c # replicate (width - length s) (CHR ''0'') @ cs
                else replicate (width - length s) (CHR ''0'') @ s))"

text \<open>\<^verbatim>\<open>sep.join(parts)\<close>.\<close>

fun join :: "string \<Rightarrow> string list \<Rightarrow> string" where
  "join sep [] = []"
| "join sep [x] = x"
| "join sep (x # y # ys) = x @ sep @ join sep (y # ys)"

section \<open>Paths and errors\<close>

text \<open>
  A \<^verbatim>\<open>pathlib.Path\<close> is modelled by what the program reads from it: the directory it
  lies in, and the stem and the suffix of its last component.
  \<open>with_name_paired\<close> is \<^verbatim>\<open>p.with_name(f"{p.stem}_paired.csv")\<close>.
\<close>

record path =
  parent :: string
  stem :: string
  suffix :: string

definition with_name_paired :: "path \<Rightarrow> path" where
  "with_name_paired p = \<lparr>parent = parent p, stem = stem p @ ''_paired'', suffix = ''.csv''\<rparr>"

text \<open>
  Every exception the program raises is a value. \<open>ValueError\<close> and \<open>RuntimeError\<close> carry
  which message it is and the data the message is formatted from; \<open>RackMismatchError\<close>
  (line 25, a subclass of \<^verbatim>\<open>RuntimeError\<close>) carries the scanned and the expected
  rack ID; \<open>LibraryError\<close> is an exception raised inside a library call (opening or
  decoding a file, parsing JSON, an attribute missing on a value, the HTTP transports), all
  of them subclasses of \<^verbatim>\<open>Exception\<close>. \<open>SystemExit\<close> is not a subclass of
  \<^verbatim>\<open>Exception\<close>; it carries the exit status.
\<close>

datatype message =
    PositionIsNone
  | FewerThanTwoColumns nat path "string list"
  | MissingPosition nat path
  | DuplicatePosition string string string
  | NoUsableData path
  | NoRackId
  | NoTubeEntries
  | NoBackend

datatype error =
    ValueError message
  | RuntimeError message
  | RackMismatchError string string
  | LibraryError string
  | SystemExit int

section \<open>Position normaliser\<close>

text \<open>
  \<^verbatim>\<open>re.fullmatch(r"([A-Z]+)0*(\d+)", token)\<close> as the backtracking search the pattern
  describes: each quantifier is greedy, so it first tries to take one more character and
  falls back to the rest of the pattern when that fails. The result is the pair of groups.
  \<open>digits_to_end\<close> is \<^verbatim>\<open>\d+\<close> followed by the end of the token,
  \<open>zeros_digits\<close> is \<^verbatim>\<open>0*(\d+)\<close> and \<open>letters_rest\<close> is the whole pattern once
  the letters \<open>seen\<close> have been taken.
\<close>

definition digits_to_end :: "string \<Rightarrow> bool" where
  "digits_to_end s = (s \<noteq> [] \<and> list_all is_digit s)"

fun zeros_digits :: "string \<Rightarrow> string option" where
  "zeros_digits [] = None"
| "zeros_digits (c # cs) =
     (case (if c = CHR ''0'' then zeros_digits cs else None) of
        Some d \<Rightarrow> Some d
      | None \<Rightarrow> if digits_to_end (c # cs) then Some (c # cs) else None)"

fun letters_rest :: "string \<Rightarrow> string \<Rightarrow> (string \<times> string) option" where
  "letters_rest seen [] = None"
| "letters_rest seen (c # cs) =
     (if is_upper c
      then (case letters_rest (seen @ [c]) cs of
              Some groups \<Rightarrow> Some groups
            | None \<Rightarrow> map_option (Pair (seen @ [c])) (zeros_digits cs))
      else None)"

definition fullmatch_position :: "string \<Rightarrow> (string \<times> string) option" where
  "fullmatch_position token = letters_rest [] token"

text \<open>
  \<open>normalize_position\<close>, lines 79 to 90. The argument is optional because the function
  checks for \<^verbatim>\<open>None\<close> itself.
\<close>

definition normalize_position :: "string option \<Rightarrow> error + string" where
  "normalize_position raw =
     (case raw of
        None \<Rightarrow> Inl (ValueError PositionIsNone)
      | Some s \<Rightarrow>
          (let token = upper (strip s) in
           case fullmatch_position token of
             None \<Rightarrow> Inr token
           | Some (row_letters, column_digits) \<Rightarrow> Inr (row_letters @ zfill 2 column_digits)))"

text \<open>
  The shape the pattern accepts, stated without the search: one or more letters A..Z, then
  one or more digits, and nothing else.
\<close>

definition letters_then_digits :: "string \<Rightarrow> bool" where
  "letters_then_digits token =
     (takeWhile is_upper token \<noteq> [] \<and> digits_to_end (dropWhile is_upper token))"

text \<open>The digits kept by the second group: leading zeros go, but one digit always stays.\<close>

definition significant_digits :: "string \<Rightarrow> string" where
  "significant_digits ds =
     (let rest = dropWhile (\<lambda>c. c = CHR ''0'') ds in if rest = [] then ''0'' else rest)"

section \<open>Python values\<close>

text \<open>
  The values \<^verbatim>\<open>json.loads\<close> builds, which are also the values a scan entry holds.
  A mapping is an association list in insertion order (its keys are distinct in a value
  Python builds); a float is a rational, or one of the three values that are not finite.
\<close>

datatype pyfloat = Finite rat | NaN | PosInf | NegInf

datatype json =
    JNull
  | JBool bool
  | JInt int
  | JFloat pyfloat
  | JStr string
  | JArr "json list"
  | JObj "(string \<times> json) list"

type_synonym pydict = "(string \<times> json) list"

text \<open>Truth value testing, as \<^verbatim>\<open>not v\<close>, \<^verbatim>\<open>v or d\<close> and \<^verbatim>\<open>bool(v)\<close> use it.\<close>

fun py_truthy :: "json \<Rightarrow> bool" where
  "py_truthy JNull = False"
| "py_truthy (JBool b) = b"
| "py_truthy (JInt n) = (n \<noteq> 0)"
| "py_truthy (JFloat f) = (f \<noteq> Finite 0)"
| "py_truthy (JStr s) = (s \<noteq> [])"
| "py_truthy (JArr xs) = (xs \<noteq> [])"
| "py_truthy (JObj kvs) = (kvs \<noteq> [])"

text \<open>\<^verbatim>\<open>v or d\<close>.\<close>

definition py_or :: "json \<Rightarrow> json \<Rightarrow> json" where
  "py_or v d = (if py_truthy v then v else d)"

text \<open>
  \<^verbatim>\<open>v == k\<close> for an integer literal \<open>k\<close>: numbers compare by value, a Boolean is
  the integer 0 or 1, anything else is unequal.
\<close>

fun py_eq_int :: "json \<Rightarrow> int \<Rightarrow> bool" where
  "py_eq_int (JInt n) k = (n = k)"
| "py_eq_int (JBool b) k = ((if b then 1 else 0) = k)"
| "py_eq_int (JFloat (Finite q)) k = (q = of_int k)"
| "py_eq_int v k = False"

text \<open>
  \<^verbatim>\<open>str(v)\<close>: a string is itself. How Python prints any other value (numbers, lists,
  mappings) is the parameter \<open>render\<close>.
\<close>

definition py_str :: "(json \<Rightarrow> string) \<Rightarrow> json \<Rightarrow> string" where
  "py_str render v = (case v of JStr s \<Rightarrow> s | _ \<Rightarrow> render v)"

text \<open>\<^verbatim>\<open>d.get(key, default)\<close>, and \<^verbatim>\<open>d.get(key)\<close> whose default is \<^verbatim>\<open>None\<close>.\<close>

definition get_default :: "pydict \<Rightarrow> string \<Rightarrow> json \<Rightarrow> json" where
  "get_default d key dflt = (case map_of d key of Some v \<Rightarrow> v | None \<Rightarrow> dflt)"

definition get :: "pydict \<Rightarrow> string \<Rightarrow> json" where
  "get d key = get_default d key JNull"

section \<open>Payload tree walker\<close>

text \<open>The number of values in a value, itself included: what the walk uses up.\<close>

fun weight :: "json \<Rightarrow> nat" where
  "weight (JArr xs) = Suc (sum_list (map weight xs))"
| "weight (JObj kvs) = Suc (sum_list (map (\<lambda>kv. weight (snd kv)) kvs))"
| "weight v = 1"

text \<open>
  The test of line 206: the node is a mapping, has the key \<^verbatim>\<open>decode\<close>, and the value
  there is a mapping.
\<close>

fun has_decode :: "json \<Rightarrow> bool" where
  "has_decode (JObj kvs) = (case map_of kvs ''decode'' of Some (JObj d) \<Rightarrow> True | _ \<Rightarrow> False)"
| "has_decode v = False"

text \<open>
  The loop of \<open>iter_decode_items\<close>, lines 203 to 212. The stack is the Python list:
  \<^verbatim>\<open>pop\<close> takes its last element and \<^verbatim>\<open>extend\<close> appends. The result is the list
  of the nodes yielded, in the order they are yielded.
\<close>

function walk :: "json list \<Rightarrow> json list" where
  "walk stack =
     (if stack = [] then []
      else (case last stack of
              JObj kvs \<Rightarrow>
                if has_decode (JObj kvs)
                then JObj kvs # walk (butlast stack @ map snd kvs)
                else walk (butlast stack @ map snd kvs)
            | JArr xs \<Rightarrow> walk (butlast stack @ xs)
            | _ \<Rightarrow> walk (butlast stack)))"
  by pat_completeness auto
termination
proof -
  have split: "sum_list (map weight stack) =
      sum_list (map weight (butlast stack)) + weight (last stack)"
    if "stack \<noteq> []" for stack :: "json list"
    using that by (induction stack) auto
  show ?thesis
    by (relation "measure (\<lambda>stack. sum_list (map weight stack))")
      (simp_all add: split comp_def)
qed

declare walk.simps [simp del]

definition iter_decode_items :: "json \<Rightarrow> json list" where
  "iter_decode_items node = walk [node]"

section \<open>Scanner result extractor\<close>

text \<open>
  The per-well map is a Python dictionary from the normalised position to the entry
  \<^verbatim>\<open>{"result": ..., "hasTube": ..., "passed": ...}\<close>: an association list, where
  assigning to a key that is present replaces its value in place and a new key goes to the
  end.
\<close>

type_synonym wells = "(string \<times> pydict) list"

text \<open>
  One pass of the loop body, lines 221 to 238, on the state \<open>(rack_id, wells)\<close>.
  \<^verbatim>\<open>continue\<close> returns the state as it is. Calling \<^verbatim>\<open>.get\<close> on a value that
  is not a mapping raises \<^verbatim>\<open>AttributeError\<close>.
\<close>

definition extract_step ::
  "(json \<Rightarrow> string) \<Rightarrow> string option \<times> wells \<Rightarrow> json \<Rightarrow> error + string option \<times> wells" where
  "extract_step render state item =
     (case item of
        JObj item_map \<Rightarrow>
          (let item_type = get item_map ''itemType'' in
           case py_or (get item_map ''decode'') (JObj []) of
             JObj decode \<Rightarrow>
               (let result = get decode ''result'' in
                if \<not> py_truthy result then Inr state
                else if py_eq_int item_type 2 \<and> fst state = None
                then Inr (Some (strip (py_str render result)), snd state)
                else if py_eq_int item_type 1
                then (let position_raw =
                            strip (py_str render (py_or (get item_map ''id'') (JStr ''''))) in
                      if position_raw = [] then Inr state
                      else (case normalize_position (Some position_raw) of
                              Inl e \<Rightarrow> Inl e
                            | Inr normalized \<Rightarrow>
                                Inr (fst state,
                                     AList.update normalized
                                       [(''result'', JStr (strip (py_str render result))),
                                        (''hasTube'',
                                           JBool (py_truthy (get_default decode ''hasTube'' (JBool False)))),
                                        (''passed'',
                                           JBool (py_truthy (get_default decode ''passed'' (JBool False))))]
                                       (snd state))))
                else Inr state)
           | _ \<Rightarrow> Inl (LibraryError ''AttributeError''))
      | _ \<Rightarrow> Inl (LibraryError ''AttributeError''))"

fun extract_loop ::
  "(json \<Rightarrow> string) \<Rightarrow> json list \<Rightarrow> string option \<times> wells \<Rightarrow> error + string option \<times> wells" where
  "extract_loop render [] state = Inr state"
| "extract_loop render (item # items) state =
     (case extract_step render state item of
        Inl e \<Rightarrow> Inl e
      | Inr state' \<Rightarrow> extract_loop render items state')"

text \<open>
  \<open>extract_scanner_results\<close>, lines 215 to 246: the loop over the nodes the walker yields,
  from \<^verbatim>\<open>rack_id = None\<close> and \<^verbatim>\<open>wells = {}\<close>, then the two checks.
\<close>

definition extract_items :: "(json \<Rightarrow> string) \<Rightarrow> json list \<Rightarrow> error + string \<times> wells" where
  "extract_items render items =
     (case extract_loop render items (None, []) of
        Inl e \<Rightarrow> Inl e
      | Inr (rack_id, wells) \<Rightarrow>
          (case rack_id of
             None \<Rightarrow> Inl (ValueError NoRackId)
           | Some rack \<Rightarrow> if wells = [] then Inl (ValueError NoTubeEntries) else Inr (rack, wells)))"

definition extract_scanner_results :: "(json \<Rightarrow> string) \<Rightarrow> json \<Rightarrow> error + string \<times> wells" where
  "extract_scanner_results render payload = extract_items render (iter_decode_items payload)"

section \<open>Reconciler\<close>

text \<open>
  An output row is (Position, SampleID, ScannerResult, Status); the scanner result is
  whatever value the entry holds under \<^verbatim>\<open>result\<close>.
\<close>

type_synonym row = "string \<times> string \<times> json \<times> string"

text \<open>
  The loop body of \<open>build_output_rows\<close>, lines 260 to 272. \<^verbatim>\<open>not scanner_entry\<close> holds
  when the position has no entry and when its entry is the empty mapping.
\<close>

definition build_row :: "wells \<Rightarrow> string \<times> string \<Rightarrow> row" where
  "build_row scanner_data entry =
     (let position = fst entry; sample_id = snd entry in
      case map_of scanner_data position of
        None \<Rightarrow> (position, sample_id, JStr '''', ''no_scan'')
      | Some scanner_entry \<Rightarrow>
          if scanner_entry = [] then (position, sample_id, JStr '''', ''no_scan'')
          else (let status_flags =
                      (if \<not> py_truthy (get_default scanner_entry ''hasTube'' (JBool False))
                       then [''empty''] else []) @
                      (if \<not> py_truthy (get_default scanner_entry ''passed'' (JBool False))
                       then [''decode_failed''] else []);
                    status = (if status_flags \<noteq> [] then join '','' status_flags else ''ok'')
                in (position, sample_id, get_default scanner_entry ''result'' (JStr ''''), status)))"

definition build_output_rows :: "(string \<times> string) list \<Rightarrow> wells \<Rightarrow> row list" where
  "build_output_rows layout scanner_data = map (build_row scanner_data) layout"

section \<open>Layout loader\<close>

text \<open>
  The loop of \<open>read_layout\<close>, lines 99 to 117, over the rows \<^verbatim>\<open>csv.reader\<close> yields;
  \<open>idx\<close> is the number of the row, from 1. The state is the list \<open>entries\<close> and the
  dictionary \<open>seen\<close>.
\<close>

fun layout_loop ::
  "path \<Rightarrow> nat \<Rightarrow> string list list \<Rightarrow> (string \<times> string) list \<Rightarrow> (string \<rightharpoonup> string) \<Rightarrow>
     error + (string \<times> string) list" where
  "layout_loop csv_path idx [] entries seen = Inr entries"
| "layout_loop csv_path idx (row # rows) entries seen =
     (if row = [] then layout_loop csv_path (idx + 1) rows entries seen
      else if length row < 2 then Inl (ValueError (FewerThanTwoColumns idx csv_path row))
      else (let position_raw = strip (row ! 0); sample_id = strip (row ! 1) in
            if position_raw = [] then Inl (ValueError (MissingPosition idx csv_path))
            else (case normalize_position (Some position_raw) of
                    Inl e \<Rightarrow> Inl e
                  | Inr normalized \<Rightarrow>
                      (case seen normalized of
                         Some earlier \<Rightarrow>
                           if earlier \<noteq> sample_id
                           then Inl (ValueError (DuplicatePosition normalized earlier sample_id))
                           else layout_loop csv_path (idx + 1) rows
                                  (entries @ [(normalized, sample_id)])
                                  (seen(normalized \<mapsto> sample_id))
                       | None \<Rightarrow>
                           layout_loop csv_path (idx + 1) rows
                             (entries @ [(normalized, sample_id)])
                             (seen(normalized \<mapsto> sample_id))))))"

text \<open>
  \<open>read_layout\<close>, lines 93 to 120. \<open>opened\<close> is what opening the file and reading it as
  CSV gives: the rows, or the exception of the library.
\<close>

definition read_layout :: "path \<Rightarrow> string + string list list \<Rightarrow> error + (string \<times> string) list" where
  "read_layout csv_path opened =
     (case opened of
        Inl e \<Rightarrow> Inl (LibraryError e)
      | Inr rows \<Rightarrow>
          (case layout_loop csv_path 1 rows [] Map.empty of
             Inl e \<Rightarrow> Inl e
           | Inr entries \<Rightarrow>
               if entries = [] then Inl (ValueError (NoUsableData csv_path)) else Inr entries))"

section \<open>Transport\<close>

definition resolve_backends :: "string \<Rightarrow> string list" where
  "resolve_backends backend =
     (if backend = ''auto'' then [''requests'', ''urllib'', ''curl''] else [backend])"

text \<open>
  The loop of \<open>fetch_payload\<close>, lines 126 to 138. \<open>call\<close> is what each of the three
  fetch functions does on the given URL: it returns the payload or raises.
\<close>

fun fetch_loop :: "(string \<Rightarrow> string + json) \<Rightarrow> string list \<Rightarrow> error list \<Rightarrow> error + json" where
  "fetch_loop call [] errors =
     (if errors \<noteq> [] then Inl (last errors) else Inl (RuntimeError NoBackend))"
| "fetch_loop call (via # backends) errors =
     (if via = ''requests'' \<or> via = ''urllib'' \<or> via = ''curl''
      then (case call via of
              Inr payload \<Rightarrow> Inr payload
            | Inl e \<Rightarrow> fetch_loop call backends (errors @ [LibraryError e]))
      else fetch_loop call backends errors)"

definition fetch_payload :: "(string \<Rightarrow> string + json) \<Rightarrow> string \<Rightarrow> error + json" where
  "fetch_payload call backend = fetch_loop call (resolve_backends backend) []"

section \<open>The program\<close>

text \<open>The namespace \<open>parse_args\<close> returns.\<close>

record args =
  csv_path :: path
  output_option :: "path option"
  url :: string
  timeout :: rat
  json_file :: "path option"
  trust_env_proxies :: bool
  backend :: string

text \<open>What the program prints.\<close>

datatype printed =
    ExtraPositions "string list"
  | Matched nat path string
  | ErrorLine error

text \<open>
  The world the program runs in. Reading is given by what each read returns, since every
  read comes before the one write: \<open>csv_rows\<close> for opening a path and reading it through
  \<^verbatim>\<open>csv.reader\<close>, \<open>json_text\<close> for reading a path and parsing it as JSON,
  \<open>http\<close> for a fetch function on a URL with a timeout and the proxy switch. \<open>writable\<close>
  says whether a path can be opened for writing, \<open>files\<close> holds the header and the rows of
  the CSV files written, \<open>stdout\<close> and \<open>stderr\<close> what has been printed.
\<close>

record world =
  csv_rows :: "path \<Rightarrow> string + string list list"
  json_text :: "path \<Rightarrow> string + json"
  http :: "string \<Rightarrow> string \<Rightarrow> rat \<Rightarrow> bool \<Rightarrow> string + json"
  writable :: "path \<Rightarrow> bool"
  files :: "path \<rightharpoonup> string list \<times> row list"
  stdout :: "printed list"
  stderr :: "printed list"

text \<open>
  \<open>parse_args\<close>, lines 29 to 76. The argument parser is the library's: \<open>cli\<close> is what
  \<^verbatim>\<open>parser.parse_args()\<close> makes of the command line, the namespace or the status it
  ends the process with through \<^verbatim>\<open>SystemExit\<close>: 2 after a usage error, such as a
  command line without the required \<^verbatim>\<open>csv_path\<close>, and 0 after printing the help.
\<close>

definition parse_args :: "int + args \<Rightarrow> error + args" where
  "parse_args cli = (case cli of Inl status \<Rightarrow> Inl (SystemExit status) | Inr a \<Rightarrow> Inr a)"

text \<open>\<open>write_output\<close>, lines 276 to 280.\<close>

definition write_output :: "row list \<Rightarrow> path \<Rightarrow> world \<Rightarrow> error + world" where
  "write_output rows output_path w =
     (if writable w output_path
      then Inr (w\<lparr>files := (files w)(output_path \<mapsto>
                   ([''Position'', ''SampleID'', ''ScannerResult'', ''Status''], rows))\<rparr>)
      else Inl (LibraryError ''OSError''))"

text \<open>Lines 287 to 295: the payload comes from the JSON file if one is given.\<close>

definition load_payload :: "args \<Rightarrow> world \<Rightarrow> error + json" where
  "load_payload a w =
     (case json_file a of
        Some p \<Rightarrow> (case json_text w p of Inl e \<Rightarrow> Inl (LibraryError e) | Inr payload \<Rightarrow> Inr payload)
      | None \<Rightarrow>
          fetch_payload (\<lambda>via. http w via (url a) (timeout a) (trust_env_proxies a))
            (backend a))"

text \<open>
  \<open>main\<close>, lines 283 to 324: the value returned or the exception raised, and the world
  afterwards.
\<close>

definition main :: "(json \<Rightarrow> string) \<Rightarrow> int + args \<Rightarrow> world \<Rightarrow> (error + int) \<times> world" where
  "main render cli w =
     (case parse_args cli of
        Inl e \<Rightarrow> (Inl e, w)
      | Inr a \<Rightarrow>
     (case read_layout (csv_path a) (csv_rows w (csv_path a)) of
        Inl e \<Rightarrow> (Inl e, w)
      | Inr layout \<Rightarrow>
     (case load_payload a w of
        Inl e \<Rightarrow> (Inl e, w)
      | Inr payload \<Rightarrow>
     (case extract_scanner_results render payload of
        Inl e \<Rightarrow> (Inl e, w)
      | Inr (rack_id, scanner_wells) \<Rightarrow>
          (let expected_rack = stem (csv_path a) in
           if rack_id \<noteq> expected_rack
           then (Inl (RackMismatchError rack_id expected_rack), w)
           else (let rows = build_output_rows layout scanner_wells;
                     output_path = (case output_option a of
                                      None \<Rightarrow> with_name_paired (csv_path a)
                                    | Some p \<Rightarrow> p) in
                 case write_output rows output_path w of
                   Inl e \<Rightarrow> (Inl e, w)
                 | Inr w1 \<Rightarrow>
                     (let extra_positions =
                            sort (remdups (filter (\<lambda>k. k \<notin> set (map fst layout))
                                             (map fst scanner_wells)));
                          w2 = (if extra_positions \<noteq> []
                                then w1\<lparr>stderr := stderr w1 @ [ExtraPositions extra_positions]\<rparr>
                                else w1);
                          w3 = w2\<lparr>stdout := stdout w2 @
                                  [Matched (length rows) output_path rack_id]\<rparr>
                      in (Inr 0, w3))))))))"

text \<open>
  The block under \<^verbatim>\<open>if __name__ == "__main__"\<close>, lines 327 to 335: the exit status of
  the process and the world afterwards. \<^verbatim>\<open>raise SystemExit(main())\<close> raises inside
  the \<^verbatim>\<open>try\<close>; neither handler catches a \<^verbatim>\<open>SystemExit\<close>, whose status becomes
  the exit status.
\<close>

definition program :: "(json \<Rightarrow> string) \<Rightarrow> int + args \<Rightarrow> world \<Rightarrow> int \<times> world" where
  "program render cli w =
     (let (returned, w1) = main render cli w;
          raised = (case returned of Inr status \<Rightarrow> SystemExit status | Inl e \<Rightarrow> e)
      in case raised of
           SystemExit status \<Rightarrow> (status, w1)
         | RackMismatchError scanned expected \<Rightarrow>
             (2, w1\<lparr>stderr := stderr w1 @ [ErrorLine raised]\<rparr>)
         | _ \<Rightarrow> (1, w1\<lparr>stderr := stderr w1 @ [ErrorLine raised]\<rparr>))"

section \<open>Notions the properties are stated with\<close>

text \<open>
  Every value inside a JSON value, the value itself included: the elements of a sequence
  and the values of a mapping, to any depth.
\<close>

fun nodes :: "json \<Rightarrow> json list" where
  "nodes (JArr xs) = JArr xs # concat (map nodes xs)"
| "nodes (JObj kvs) = JObj kvs # concat (map (\<lambda>kv. nodes (snd kv)) kvs)"
| "nodes v = [v]"

text \<open>
  What the extractor reads from a node: the value of \<^verbatim>\<open>itemType\<close>, the decode result
  (\<^verbatim>\<open>None\<close> when the node or its decode mapping has none), the trimmed text of the
  \<^verbatim>\<open>id\<close> field, and the entry it stores for a well.
\<close>

definition item_type_of :: "json \<Rightarrow> json" where
  "item_type_of item = (case item of JObj m \<Rightarrow> get m ''itemType'' | _ \<Rightarrow> JNull)"

definition decode_of :: "json \<Rightarrow> pydict" where
  "decode_of item =
     (case item of
        JObj m \<Rightarrow> (case py_or (get m ''decode'') (JObj []) of JObj d \<Rightarrow> d | _ \<Rightarrow> [])
      | _ \<Rightarrow> [])"

definition result_of :: "json \<Rightarrow> json" where
  "result_of item = get (decode_of item) ''result''"

definition id_of :: "(json \<Rightarrow> string) \<Rightarrow> json \<Rightarrow> string" where
  "id_of render item =
     (case item of
        JObj m \<Rightarrow> strip (py_str render (py_or (get m ''id'') (JStr '''')))
      | _ \<Rightarrow> [])"

definition has_result :: "json \<Rightarrow> bool" where
  "has_result item = py_truthy (result_of item)"

definition is_rack_type :: "json \<Rightarrow> bool" where
  "is_rack_type item = py_eq_int (item_type_of item) 2"

definition is_well_type :: "json \<Rightarrow> bool" where
  "is_well_type item = py_eq_int (item_type_of item) 1"

text \<open>The nodes that can set the rack ID, and the nodes that store a well entry.\<close>

definition supplies_rack :: "json \<Rightarrow> bool" where
  "supplies_rack item = (has_result item \<and> is_rack_type item)"

definition supplies_well :: "(json \<Rightarrow> string) \<Rightarrow> json \<Rightarrow> bool" where
  "supplies_well render item = (has_result item \<and> is_well_type item \<and> id_of render item \<noteq> [])"

definition rack_text :: "(json \<Rightarrow> string) \<Rightarrow> json \<Rightarrow> string" where
  "rack_text render item = strip (py_str render (result_of item))"

definition well_position :: "(json \<Rightarrow> string) \<Rightarrow> json \<Rightarrow> string" where
  "well_position render item =
     (case normalize_position (Some (id_of render item)) of Inr t \<Rightarrow> t | Inl e \<Rightarrow> [])"

definition well_entry :: "(json \<Rightarrow> string) \<Rightarrow> json \<Rightarrow> pydict" where
  "well_entry render item =
     [(''result'', JStr (strip (py_str render (result_of item)))),
      (''hasTube'', JBool (py_truthy (get_default (decode_of item) ''hasTube'' (JBool False)))),
      (''passed'', JBool (py_truthy (get_default (decode_of item) ''passed'' (JBool False))))]"



text \<open>The layout entry a row of at least two columns stands for.\<close>

definition layout_entry :: "string list \<Rightarrow> string \<times> string" where
  "layout_entry row =
     (case normalize_position (Some (strip (row ! 0))) of
        Inr normalized \<Rightarrow> (normalized, strip (row ! 1))
      | Inl e \<Rightarrow> ([], strip (row ! 1)))"

text \<open>
  A rendering to use where every value printed is a string, so that the rendering of other
  values plays no part.
\<close>

definition plain_render :: "json \<Rightarrow> string" where
  "plain_render v = []"

text \<open>
  The rack ID the first node that can set it gives, and the effect of one node on the
  per-well map.
\<close>

definition first_rack :: "(json \<Rightarrow> string) \<Rightarrow> json list \<Rightarrow> string option" where
  "first_rack render items =
     (case filter supplies_rack items of [] \<Rightarrow> None | n # ns \<Rightarrow> Some (rack_text render n))"

definition store_well :: "(json \<Rightarrow> string) \<Rightarrow> json \<Rightarrow> wells \<Rightarrow> wells" where
  "store_well render item wells =
     (if supplies_well render item
      then AList.update (well_position render item) (well_entry render item) wells
      else wells)"

section \<open>Example inputs\<close>

text \<open>The payload of the specification's example, and the one decode node in it.\<close>

definition example_node :: json where
  "example_node =
     JObj [(''decode'', JObj [(''result'', JStr ''X'')]), (''itemType'', JInt 1), (''id'', JStr ''B2'')]"

definition example_payload :: json where
  "example_payload = JObj [(''a'', JArr [example_node, JObj [(''foo'', JInt 1)]])]"

text \<open>A rack node and a well node as the reader sends them.\<close>

definition rack_node :: "string \<Rightarrow> json" where
  "rack_node result = JObj [(''itemType'', JInt 2), (''decode'', JObj [(''result'', JStr result)])]"

definition well_node :: "string \<Rightarrow> string \<Rightarrow> json" where
  "well_node ident result =
     JObj [(''itemType'', JInt 1), (''id'', JStr ident),
           (''decode'', JObj [(''result'', JStr result), (''hasTube'', JBool True),
                              (''passed'', JBool True)])]"

text \<open>
  The walker takes the last element of a sequence first. In \<open>skipped_rack_payload\<close> the
  first rack node it meets has an empty result; in \<open>empty_well_payload\<close> the well A2 has
  an empty result.
\<close>

definition skipped_rack_payload :: json where
  "skipped_rack_payload = JArr [well_node ''a1'' ''T1'', rack_node ''R1'', rack_node '''']"

definition empty_well_payload :: json where
  "empty_well_payload = JArr [well_node ''A2'' '''', well_node ''A1'' ''T1'', rack_node ''R1'']"

text \<open>The layout file of the examples, and the scan entry of a tube that was read.\<close>

definition example_csv :: path where
  "example_csv = \<lparr>parent = ''data/csv/filled_racks'', stem = ''ALT00019226'', suffix = ''.csv''\<rparr>"


text \<open>
  A run of the program on the example layout with a payload read from a JSON file: the
  arguments, and the world, given by what reading the layout and reading the JSON file
  return; every path can be written and no file has been written yet. In
  \<open>example_world\<close> the layout file has two rows.
\<close>

definition example_args :: args where
  "example_args =
     \<lparr>csv_path = example_csv, output_option = None,
      url = ''http://10.10.10.1:5223/api/v1/projects/SBS%2096'', timeout = 5,
      json_file = Some \<lparr>parent = ''data'', stem = ''scan'', suffix = ''.json''\<rparr>,
      trust_env_proxies = False, backend = ''auto''\<rparr>"

definition run_world :: "string + string list list \<Rightarrow> string + json \<Rightarrow> world" where
  "run_world layout_read json_read =
     \<lparr>csv_rows = (\<lambda>p. layout_read),
      json_text = (\<lambda>p. json_read),
      http = (\<lambda>via address seconds trust. Inl ''ConnectionError''),
      writable = (\<lambda>p. True),
      files = Map.empty,
      stdout = [],
      stderr = []\<rparr>"

definition example_world :: "json \<Rightarrow> world" where
  "example_world payload = run_world (Inr [[''A1'', ''S1''], [''A2'', ''S2'']]) (Inr payload)"

definition matching_payload :: json where
  "matching_payload = JArr [well_node ''A1'' ''T1'', rack_node ''ALT00019226'']"

definition other_rack_payload :: json where
  "other_rack_payload = JArr [well_node ''A1'' ''T1'', rack_node ''ALT00000001'']"

text \<open>The exceptions the steps of the program raise themselves.\<close>

fun ordinary :: "error \<Rightarrow> bool" where
  "ordinary (ValueError m) = True"
| "ordinary (RuntimeError m) = True"
| "ordinary (LibraryError d) = True"
| "ordinary (RackMismatchError scanned expected) = False"
| "ordinary (SystemExit status) = False"

section \<open>Facts about text\<close>






lemma digit_not_upper: "is_digit c \<Longrightarrow> \<not> is_upper c"
  by (auto simp add: is_digit_def is_upper_def)










lemma zeros_digits_eq:
  "zeros_digits s = (if digits_to_end s then Some (significant_digits s) else None)"
  by (induction s) (auto simp: digits_to_end_def significant_digits_def Let_def is_digit_def)

lemma letters_rest_eq:
  "letters_rest seen s =
     (if letters_then_digits s
      then Some (seen @ takeWhile is_upper s, significant_digits (dropWhile is_upper s))
      else None)"
proof (induction s arbitrary: seen)
  case Nil
  then show ?case by (simp add: letters_then_digits_def)
next
  case (Cons c cs)
  show ?case
  proof (cases "is_upper c")
    case False
    then show ?thesis by (simp add: letters_then_digits_def)
  next
    case True
    note up = this
    show ?thesis
    proof (cases "takeWhile is_upper cs = []")
      case True
      then have d: "dropWhile is_upper cs = cs"
        by (metis takeWhile_dropWhile_id append_Nil)
      from True have "\<not> letters_then_digits cs" by (simp add: letters_then_digits_def)
      then show ?thesis using up True d Cons [of "seen @ [c]"]
        by (simp add: letters_then_digits_def zeros_digits_eq)
    next
      case False
      then obtain x xs where cs: "cs = x # xs" and x: "is_upper x"
        by (cases cs) (auto split: if_splits)
      then have "\<not> digits_to_end cs"
        using digit_not_upper by (auto simp: digits_to_end_def)
      then show ?thesis using up False Cons [of "seen @ [c]"]
        by (simp add: letters_then_digits_def zeros_digits_eq)
    qed
  qed
qed

lemma fullmatch_position_eq:
  "fullmatch_position token =
     (if letters_then_digits token
      then Some (takeWhile is_upper token, significant_digits (dropWhile is_upper token))
      else None)"
  by (simp add: fullmatch_position_def letters_rest_eq)








lemma normalize_position_Some:
  "normalize_position (Some s) =
     Inr (let token = upper (strip s) in
          if letters_then_digits token
          then takeWhile is_upper token @ zfill 2 (significant_digits (dropWhile is_upper token))
          else token)"
  by (simp add: normalize_position_def fullmatch_position_eq Let_def)


section \<open>Facts about the tree walker\<close>

lemma has_decode_iff:
  "has_decode v = (\<exists>kvs d. v = JObj kvs \<and> map_of kvs ''decode'' = Some (JObj d))"
  by (cases v) (auto split: option.splits json.splits)

lemma nodes_stack_split:
  "stack \<noteq> [] \<Longrightarrow>
     concat (map nodes stack) = concat (map nodes (butlast stack)) @ nodes (last stack)"
  by (induction stack) auto

lemma mset_walk:
  "mset (walk stack) = filter_mset has_decode (mset (concat (map nodes stack)))"
proof (induction stack rule: walk.induct)
  case (1 stack)
  show ?case
  proof (cases "stack = []")
    case True
    then show ?thesis by (simp add: walk.simps)
  next
    case False
    note sp = nodes_stack_split [OF False]
    show ?thesis
    proof (cases "last stack")
      case (JObj kvs)
      have c: "concat (map nodes (map snd kvs)) = concat (map (\<lambda>kv. nodes (snd kv)) kvs)"
        by (simp add: comp_def)
      from JObj False "1.IH" sp c show ?thesis
        by (subst walk.simps) (cases "has_decode (JObj kvs)"; simp)
    qed (use False "1.IH" sp in \<open>subst walk.simps, simp\<close>)+
  qed
qed

lemma mset_iter_decode_items:
  "mset (iter_decode_items v) = filter_mset has_decode (mset (nodes v))"
  by (simp add: iter_decode_items_def mset_walk)

lemma set_iter_decode_items:
  "set (iter_decode_items v) = {n \<in> set (nodes v). has_decode n}"
  using arg_cong [OF mset_iter_decode_items, of set_mset] by simp

section \<open>Facts about the extractor\<close>

lemma not_both_types: "\<not> (py_eq_int v 2 \<and> py_eq_int v 1)"
proof (cases v)
  case (JFloat f)
  then show ?thesis by (cases f) auto
qed auto

lemma has_decode_obj:
  assumes "has_decode item"
  obtains m d where "item = JObj m" "py_or (get m ''decode'') (JObj []) = JObj d"
proof -
  from assms obtain m where m: "item = JObj m" by (cases item) auto
  with assms obtain d where d: "map_of m ''decode'' = Some (JObj d)"
    by (auto split: option.splits json.splits)
  then have "py_or (get m ''decode'') (JObj []) = JObj (if d = [] then [] else d)"
    by (simp add: py_or_def get_def get_default_def)
  with m that show ?thesis by simp
qed

lemma normalize_position_total: "\<exists>t. normalize_position (Some s) = Inr t"
  by (simp add: normalize_position_Some)

lemma extract_step_eq:
  assumes "has_decode item"
  shows "extract_step render (rack, wells) item =
     Inr (if supplies_rack item \<and> rack = None then Some (rack_text render item) else rack,
          if supplies_well render item
          then AList.update (well_position render item) (well_entry render item) wells
          else wells)"
proof -
  from assms obtain m d where m: "item = JObj m"
    and d: "py_or (get m ''decode'') (JObj []) = JObj d"
    by (rule has_decode_obj)
  obtain t where t: "normalize_position (Some (id_of render item)) = Inr t"
    using normalize_position_total by blast
  have nb: "\<not> (is_rack_type item \<and> is_well_type item)"
    by (simp add: is_rack_type_def is_well_type_def not_both_types)
  have dec: "decode_of item = d" using m d by (simp add: decode_of_def)
  show ?thesis
    using nb t unfolding extract_step_def
    by (simp add: m d Let_def supplies_rack_def supplies_well_def has_result_def result_of_def dec [unfolded m]
        decode_of_def is_rack_type_def is_well_type_def item_type_of_def id_of_def rack_text_def
        well_position_def well_entry_def)
qed

lemma extract_loop_eq:
  assumes "\<forall>n \<in> set items. has_decode n"
  shows "extract_loop render items (rack, wells) =
     Inr (case rack of None \<Rightarrow> first_rack render items | Some r \<Rightarrow> Some r,
          fold (store_well render) items wells)"
  using assms
proof (induction items arbitrary: rack wells)
  case Nil
  then show ?case by (simp add: first_rack_def split: option.splits)
next
  case (Cons n items)
  then have n: "has_decode n" and rest: "\<forall>n \<in> set items. has_decode n" by simp_all
  show ?case
    by (simp add: extract_step_eq [OF n] Cons.IH [OF rest] first_rack_def store_well_def
        split: option.splits)
qed

lemma fold_store_well_Nil:
  "fold (store_well render) items wells = [] \<longleftrightarrow>
     wells = [] \<and> \<not> (\<exists>n \<in> set items. supplies_well render n)"
  by (induction items arbitrary: wells) (auto simp: store_well_def)

lemma map_of_fold_store_well:
  "map_of (fold (store_well render) items wells) k =
     (let ns = filter (\<lambda>n. supplies_well render n \<and> well_position render n = k) items in
      if ns = [] then map_of wells k else Some (well_entry render (last ns)))"
proof (induction items rule: rev_induct)
  case Nil
  then show ?case by simp
next
  case (snoc x xs)
  then show ?case
    by (simp add: store_well_def update_conv Let_def)
qed

lemma walk_items_decode: "\<forall>n \<in> set (iter_decode_items payload). has_decode n"
  using arg_cong [OF mset_iter_decode_items, of set_mset] by auto

lemma first_rack_None:
  "first_rack render items = None \<longleftrightarrow> \<not> (\<exists>n \<in> set items. supplies_rack n)"
proof (cases "filter supplies_rack items")
  case Nil
  then show ?thesis by (simp add: first_rack_def filter_empty_conv)
next
  case (Cons a as)
  then have "a \<in> set (filter supplies_rack items)" by simp
  then have "\<exists>n \<in> set items. supplies_rack n" by auto
  with Cons show ?thesis by (simp add: first_rack_def)
qed

lemma extract_items_eq:
  assumes "\<forall>n \<in> set items. has_decode n"
  shows "extract_items render items =
     (case first_rack render items of
        None \<Rightarrow> Inl (ValueError NoRackId)
      | Some rack \<Rightarrow>
          if \<exists>n \<in> set items. supplies_well render n
          then Inr (rack, fold (store_well render) items [])
          else Inl (ValueError NoTubeEntries))"
proof -
  have loop: "extract_loop render items (None, []) =
      Inr (first_rack render items, fold (store_well render) items [])"
    using extract_loop_eq [OF assms, where render = render and rack = None and wells = "[]"]
    by simp
  show ?thesis
  proof (cases "first_rack render items")
    case None
    with loop show ?thesis
      by (simp add: extract_items_def)
  next
    case (Some rack)
    with loop fold_store_well_Nil [of render items "[]"] show ?thesis
      by (cases "\<exists>n \<in> set items. supplies_well render n")
        (simp_all add: extract_items_def)
  qed
qed

lemma extract_scanner_results_eq:
  "extract_scanner_results render payload =
     (case first_rack render (iter_decode_items payload) of
        None \<Rightarrow> Inl (ValueError NoRackId)
      | Some rack \<Rightarrow>
          if \<exists>n \<in> set (iter_decode_items payload). supplies_well render n
          then Inr (rack, fold (store_well render) (iter_decode_items payload) [])
          else Inl (ValueError NoTubeEntries))"
  unfolding extract_scanner_results_def by (rule extract_items_eq [OF walk_items_decode])

lemma fold_store_well_filter:
  "fold (store_well render) (filter has_result items) wells = fold (store_well render) items wells"
  by (induction items arbitrary: wells) (simp_all add: store_well_def supplies_well_def)

lemma first_rack_filter: "first_rack render (filter has_result items) = first_rack render items"
proof -
  have "filter supplies_rack (filter has_result items) = filter supplies_rack items"
    by (induction items) (auto simp: supplies_rack_def)
  then show ?thesis by (simp add: first_rack_def)
qed

section \<open>Facts about the reconciler and the layout loader\<close>



lemma layout_loop_success:
  assumes "layout_loop p idx rows entries seen = Inr out"
  shows "out = entries @ map layout_entry (filter (\<lambda>r. r \<noteq> []) rows) \<and>
         (\<exists>m. (\<forall>k v. seen k = Some v \<longrightarrow> m k = Some v) \<and>
              (\<forall>r \<in> set rows. r \<noteq> [] \<longrightarrow> m (fst (layout_entry r)) = Some (snd (layout_entry r))))"
  using assms
proof (induction rows arbitrary: idx entries seen)
  case Nil
  then show ?case by auto
next
  case (Cons row rows)
  show ?case
  proof (cases "row = []")
    case True
    with Cons.prems have "layout_loop p (idx + 1) rows entries seen = Inr out" by simp
    from Cons.IH [OF this] True show ?thesis by auto
  next
    case False
    obtain t where t: "normalize_position (Some (strip (row ! 0))) = Inr t"
      using normalize_position_total by blast
    then have le: "layout_entry row = (t, strip (row ! 1))"
      by (simp add: layout_entry_def)
    let ?seen = "seen(t \<mapsto> strip (row ! 1))"
    from Cons.prems False t
    have ok: "seen t = None \<or> seen t = Some (strip (row ! 1))"
      and rest: "layout_loop p (idx + 1) rows (entries @ [(t, strip (row ! 1))]) ?seen = Inr out"
      by (auto simp: Let_def split: if_splits option.splits)
    from Cons.IH [OF rest] obtain m where
      out: "out = (entries @ [(t, strip (row ! 1))]) @ map layout_entry (filter (\<lambda>r. r \<noteq> []) rows)"
      and ext: "\<forall>k v. ?seen k = Some v \<longrightarrow> m k = Some v"
      and cov: "\<forall>r \<in> set rows. r \<noteq> [] \<longrightarrow> m (fst (layout_entry r)) = Some (snd (layout_entry r))"
      by blast
    from ext have here: "m t = Some (strip (row ! 1))" by simp
    have "\<forall>k v. seen k = Some v \<longrightarrow> m k = Some v"
    proof (intro allI impI)
      fix k v assume kv: "seen k = Some v"
      show "m k = Some v"
      proof (cases "k = t")
        case True
        with kv ok here show ?thesis by auto
      next
        case False
        with kv ext show ?thesis by simp
      qed
    qed
    with out cov here le False show ?thesis by auto
  qed
qed

lemma read_layout_success:
  assumes "read_layout p (Inr rows) = Inr entries"
  shows "entries = map layout_entry (filter (\<lambda>r. r \<noteq> []) rows)"
    and "\<exists>m. \<forall>r \<in> set rows. r \<noteq> [] \<longrightarrow> m (fst (layout_entry r)) = Some (snd (layout_entry r))"
proof -
  from assms have "layout_loop p 1 rows [] Map.empty = Inr entries"
    by (auto simp: read_layout_def split: sum.splits if_splits)
  from layout_loop_success [OF this]
  show "entries = map layout_entry (filter (\<lambda>r. r \<noteq> []) rows)"
    and "\<exists>m. \<forall>r \<in> set rows. r \<noteq> [] \<longrightarrow> m (fst (layout_entry r)) = Some (snd (layout_entry r))"
    by auto
qed

lemma read_layout_conflict:
  assumes "r1 \<in> set rows" "r2 \<in> set rows" "r1 \<noteq> []" "r2 \<noteq> []"
    and "fst (layout_entry r1) = fst (layout_entry r2)"
    and "snd (layout_entry r1) \<noteq> snd (layout_entry r2)"
  shows "\<exists>e. read_layout p (Inr rows) = Inl e"
proof (cases "read_layout p (Inr rows)")
  case (Inl e)
  then show ?thesis by blast
next
  case (Inr entries)
  from read_layout_success(2) [OF Inr] obtain m where
    "\<forall>r \<in> set rows. r \<noteq> [] \<longrightarrow> m (fst (layout_entry r)) = Some (snd (layout_entry r))"
    by blast
  then have "m (fst (layout_entry r1)) = Some (snd (layout_entry r1))"
    and "m (fst (layout_entry r2)) = Some (snd (layout_entry r2))"
    using assms(1-4) by blast+
  with assms(5,6) show ?thesis by simp
qed

section \<open>Facts about the program\<close>

lemma layout_loop_ordinary:
  "layout_loop p idx rows entries seen = Inl e \<Longrightarrow> ordinary e"
proof (induction rows arbitrary: idx entries seen)
  case Nil
  then show ?case by simp
next
  case (Cons row rows)
  obtain t where t: "normalize_position (Some (strip (row ! 0))) = Inr t"
    using normalize_position_total by blast
  from Cons.prems show ?case
    by (auto simp: t Let_def split: if_splits option.splits dest: Cons.IH)
qed

lemma read_layout_ordinary: "read_layout p opened = Inl e \<Longrightarrow> ordinary e"
  by (auto simp: read_layout_def split: sum.splits if_splits dest: layout_loop_ordinary)

lemma fetch_loop_ordinary:
  "fetch_loop call backends errors = Inl e \<Longrightarrow> \<forall>x \<in> set errors. ordinary x \<Longrightarrow> ordinary e"
proof (induction backends arbitrary: errors)
  case Nil
  then show ?case by (auto split: if_splits)
next
  case (Cons via backends)
  show ?case
  proof (cases "via = ''requests'' \<or> via = ''urllib'' \<or> via = ''curl''")
    case True
    with Cons.prems obtain d where d: "call via = Inl d"
      and rest: "fetch_loop call backends (errors @ [LibraryError d]) = Inl e"
      by (auto split: sum.splits)
    from Cons.prems(2) have "\<forall>x \<in> set (errors @ [LibraryError d]). ordinary x" by simp
    from Cons.IH [OF rest this] show ?thesis .
  next
    case False
    with Cons.prems have "fetch_loop call backends errors = Inl e" by simp
    from Cons.IH [OF this Cons.prems(2)] show ?thesis .
  qed
qed

lemma load_payload_ordinary: "load_payload a w = Inl e \<Longrightarrow> ordinary e"
  by (auto simp: load_payload_def fetch_payload_def split: option.splits sum.splits
      dest: fetch_loop_ordinary)

lemma extract_scanner_results_ordinary:
  "extract_scanner_results render payload = Inl e \<Longrightarrow> ordinary e"
  by (auto simp: extract_scanner_results_eq split: option.splits if_splits)

lemma write_output_cases:
  "write_output rows output_path w = Inl e \<Longrightarrow> ordinary e"
  "write_output rows output_path w = Inr w1 \<Longrightarrow>
     w1 = w\<lparr>files := (files w)(output_path \<mapsto>
            ([''Position'', ''SampleID'', ''ScannerResult'', ''Status''], rows))\<rparr>"
  by (auto simp: write_output_def split: if_splits)

lemma main_usage: "main render (Inl status) w = (Inl (SystemExit status), w)"
  by (simp add: main_def parse_args_def)

lemma main_mismatch:
  assumes "read_layout (csv_path a) (csv_rows w (csv_path a)) = Inr layout"
    and "load_payload a w = Inr payload"
    and "extract_scanner_results render payload = Inr (rack, wells)"
    and "rack \<noteq> stem (csv_path a)"
  shows "main render (Inr a) w = (Inl (RackMismatchError rack (stem (csv_path a))), w)"
  using assms by (simp add: main_def parse_args_def)

lemma main_cases:
  obtains (failed) e where "main render (Inr a) w = (Inl e, w)" "ordinary e"
  | (mismatch) layout payload rack wells where
      "read_layout (csv_path a) (csv_rows w (csv_path a)) = Inr layout"
      "load_payload a w = Inr payload"
      "extract_scanner_results render payload = Inr (rack, wells)"
      "rack \<noteq> stem (csv_path a)"
      "main render (Inr a) w = (Inl (RackMismatchError rack (stem (csv_path a))), w)"
  | (written) layout payload wells output_path where
      "read_layout (csv_path a) (csv_rows w (csv_path a)) = Inr layout"
      "load_payload a w = Inr payload"
      "extract_scanner_results render payload = Inr (stem (csv_path a), wells)"
      "output_path = (case output_option a of None \<Rightarrow> with_name_paired (csv_path a) | Some p \<Rightarrow> p)"
      "fst (main render (Inr a) w) = Inr 0"
      "files (snd (main render (Inr a) w)) =
         (files w)(output_path \<mapsto> ([''Position'', ''SampleID'', ''ScannerResult'', ''Status''],
                                       build_output_rows layout wells))"
proof (cases "read_layout (csv_path a) (csv_rows w (csv_path a))")
  case (Inl e)
  then have "main render (Inr a) w = (Inl e, w)" by (simp add: main_def parse_args_def)
  with Inl failed read_layout_ordinary show ?thesis by blast
next
  case layout: (Inr layout)
  show ?thesis
  proof (cases "load_payload a w")
    case (Inl e)
    with layout have "main render (Inr a) w = (Inl e, w)" by (simp add: main_def parse_args_def)
    with Inl failed load_payload_ordinary show ?thesis by blast
  next
    case payload: (Inr payload)
    show ?thesis
    proof (cases "extract_scanner_results render payload")
      case (Inl e)
      with layout payload have "main render (Inr a) w = (Inl e, w)"
        by (simp add: main_def parse_args_def)
      with Inl failed extract_scanner_results_ordinary show ?thesis by blast
    next
      case (Inr found)
      obtain rack wells where found: "found = (rack, wells)" by (cases found)
      note ex = Inr [unfolded found]
      show ?thesis
      proof (cases "rack = stem (csv_path a)")
        case False
        from main_mismatch [OF layout payload ex False] layout payload ex False mismatch
        show ?thesis by blast
      next
        case True
        let ?out = "case output_option a of None \<Rightarrow> with_name_paired (csv_path a) | Some p \<Rightarrow> p"
        let ?rows = "build_output_rows layout wells"
        show ?thesis
        proof (cases "write_output ?rows ?out w")
          case (Inl e)
          with layout payload ex True have "main render (Inr a) w = (Inl e, w)"
            by (simp add: main_def parse_args_def Let_def)
          with Inl failed write_output_cases(1) show ?thesis by blast
        next
          case (Inr w1)
          from write_output_cases(2) [OF Inr]
          have f: "files w1 = (files w)(?out \<mapsto>
              ([''Position'', ''SampleID'', ''ScannerResult'', ''Status''], ?rows))"
            by simp
          from layout payload ex True Inr
          have "fst (main render (Inr a) w) = Inr 0"
            and "files (snd (main render (Inr a) w)) = files w1"
            by (simp_all add: main_def parse_args_def Let_def)
          with f layout payload ex True written [of layout payload wells ?out] show ?thesis
            by simp
        qed
      qed
    qed
  qed
qed

lemma program_status:
  "fst (program render cli w) =
     (case fst (main render cli w) of
        Inr status \<Rightarrow> status
      | Inl (SystemExit status) \<Rightarrow> status
      | Inl (RackMismatchError scanned expected) \<Rightarrow> 2
      | Inl e \<Rightarrow> 1)"
  by (simp add: program_def Let_def split: prod.splits sum.splits error.splits)


lemma ordinary_status:
  "ordinary e \<Longrightarrow> fst (main render cli w) = Inl e \<Longrightarrow> fst (program render cli w) = 1"
  by (cases e) (simp_all add: program_status)

section \<open>The position normaliser\<close>

text \<open>
  Claim C4. \<open>normalize_position\<close> maps "A1", "a01" and "A01" to "A01" and "H12" to "H12". For
  every input whose trimmed, upper-cased token the pattern does not match, the result is
  that token, returned as a value and not as an error. The pattern fails to match exactly
  the tokens that are not letters followed by digits.
\<close>

theorem normalize_position_cases:
  "normalize_position (Some ''A1'') = Inr ''A01'' \<and>
   normalize_position (Some ''a01'') = Inr ''A01'' \<and>
   normalize_position (Some ''A01'') = Inr ''A01'' \<and>
   normalize_position (Some ''H12'') = Inr ''H12'' \<and>
   (\<forall>raw. fullmatch_position (upper (strip raw)) = None \<longrightarrow>
          normalize_position (Some raw) = Inr (upper (strip raw))) \<and>
   (\<forall>token. (fullmatch_position token = None) = (\<not> letters_then_digits token))"
proof -
  have "normalize_position (Some ''A1'') = Inr ''A01''" by code_simp
  moreover have "normalize_position (Some ''a01'') = Inr ''A01''" by code_simp
  moreover have "normalize_position (Some ''A01'') = Inr ''A01''" by code_simp
  moreover have "normalize_position (Some ''H12'') = Inr ''H12''" by code_simp
  moreover have "\<forall>raw. fullmatch_position (upper (strip raw)) = None \<longrightarrow>
      normalize_position (Some raw) = Inr (upper (strip raw))"
    by (simp add: normalize_position_def Let_def)
  moreover have "\<forall>token. (fullmatch_position token = None) = (\<not> letters_then_digits token)"
    by (simp add: fullmatch_position_eq)
  ultimately show ?thesis by blast
qed

theorem normalize_position_cases_witness:
  "fullmatch_position (upper (strip '' rack-7 '')) = None \<and>
   normalize_position (Some '' rack-7 '') = Inr ''RACK-7''"
proof -
  have h: "fullmatch_position (upper (strip '' rack-7 '')) = None" by code_simp
  have u: "upper (strip '' rack-7 '') = ''RACK-7''" by code_simp
  from normalize_position_cases
  have "fullmatch_position (upper (strip '' rack-7 '')) = None \<longrightarrow>
      normalize_position (Some '' rack-7 '') = Inr (upper (strip '' rack-7 ''))"
    by blast
  with h u show ?thesis by simp
qed



section \<open>The tree walker\<close>

text \<open>
  Claim C3. For every JSON value, the walker yields exactly the mapping nodes inside it that
  have a "decode" key whose value is a mapping, each as often as it occurs; on the
  specification's example it yields exactly one node.
\<close>

theorem iter_decode_items_yields_decode_nodes:
  "set (iter_decode_items payload) =
     {n \<in> set (nodes payload). \<exists>m d. n = JObj m \<and> map_of m ''decode'' = Some (JObj d)} \<and>
   mset (iter_decode_items payload) = filter_mset has_decode (mset (nodes payload)) \<and>
   iter_decode_items example_payload = [example_node]"
proof -
  have "set (iter_decode_items payload) = {n \<in> set (nodes payload). has_decode n}"
    by (rule set_iter_decode_items)
  then have "set (iter_decode_items payload) =
     {n \<in> set (nodes payload). \<exists>m d. n = JObj m \<and> map_of m ''decode'' = Some (JObj d)}"
    by (simp add: has_decode_iff)
  moreover have "iter_decode_items example_payload = [example_node]"
    by code_simp
  ultimately show ?thesis by (simp add: mset_iter_decode_items)
qed

section \<open>The extractor\<close>

text \<open>
  Claim C6. \<open>extract_scanner_results\<close> fails with an error if and only if no node the walker
  yields supplies a rack ID or none supplies a well entry; when it succeeds, it returns a
  rack ID together with a map of well entries that is not empty.
\<close>

theorem extract_scanner_results_fails_iff:
  "((\<exists>e. extract_scanner_results render payload = Inl e) \<longleftrightarrow>
      \<not> (\<exists>n \<in> set (iter_decode_items payload). supplies_rack n) \<or>
      \<not> (\<exists>n \<in> set (iter_decode_items payload). supplies_well render n)) \<and>
   (\<forall>rack wells. extract_scanner_results render payload = Inr (rack, wells) \<longrightarrow> wells \<noteq> [])"
proof -
  let ?items = "iter_decode_items payload"
  show ?thesis
  proof (cases "first_rack render ?items")
    case None
    then show ?thesis
      using first_rack_None [of render ?items] by (simp add: extract_scanner_results_eq)
  next
    case (Some r)
    then have "\<exists>n \<in> set ?items. supplies_rack n"
      using first_rack_None [of render ?items] by simp
    with Some fold_store_well_Nil [of render ?items "[]"] show ?thesis
      by (cases "\<exists>n \<in> set ?items. supplies_well render n")
        (simp_all add: extract_scanner_results_eq)
  qed
qed

theorem extract_scanner_results_fails_iff_witness:
  "extract_scanner_results plain_render empty_well_payload =
     Inr (''R1'', [(''A01'', [(''result'', JStr ''T1''), (''hasTube'', JBool True), (''passed'', JBool True)])]) \<and>
   [(''A01'', [(''result'', JStr ''T1''), (''hasTube'', JBool True), (''passed'', JBool True)])] \<noteq> ([] :: wells) \<and>
   extract_scanner_results plain_render (JArr []) = Inl (ValueError NoRackId) \<and>
   \<not> (\<exists>n \<in> set (iter_decode_items (JArr [])). supplies_rack n)"
proof -
  have e: "extract_scanner_results plain_render empty_well_payload =
     Inr (''R1'', [(''A01'', [(''result'', JStr ''T1''), (''hasTube'', JBool True), (''passed'', JBool True)])])"
    by code_simp
  have f: "extract_scanner_results plain_render (JArr []) = Inl (ValueError NoRackId)"
    by code_simp
  have g: "\<not> (\<exists>n \<in> set (iter_decode_items (JArr [])). supplies_rack n)"
    by code_simp
  from extract_scanner_results_fails_iff [of plain_render empty_well_payload] e
  have "[(''A01'', [(''result'', JStr ''T1''), (''hasTube'', JBool True), (''passed'', JBool True)])] \<noteq> ([] :: wells)"
    by blast
  with e f g show ?thesis by blast
qed

text \<open>
  Claim C7 says that the rack ID returned is the decode result of the first itemType-2 node
  of the traversal. In \<open>skipped_rack_payload\<close> the first itemType-2 node met has the empty
  result; the extractor passes over it and returns the rack ID of the second one.
\<close>

theorem first_rack_node_is_skipped:
  "filter is_rack_type (iter_decode_items skipped_rack_payload) = [rack_node '''', rack_node ''R1''] \<and>
   result_of (rack_node '''') = JStr '''' \<and>
   extract_scanner_results plain_render skipped_rack_payload =
     Inr (''R1'', [(''A01'', [(''result'', JStr ''T1''), (''hasTube'', JBool True), (''passed'', JBool True)])])"
  by code_simp

text \<open>
  Claim C7, amended. When \<open>extract_scanner_results\<close> returns, the rack ID is the trimmed text
  of the decode result of the first node of the traversal that has itemType 2 and a
  result that is not empty (falsy); no later node changes it. The per-well map holds, under
  each normalised "id", the entry of the last node of the traversal that has itemType 1, a
  result that is not empty and that "id"; it holds nothing else.
\<close>

theorem rack_id_from_first_node_with_result:
  assumes "extract_scanner_results render payload = Inr (rack, wells)"
  shows "(\<exists>n ns. filter supplies_rack (iter_decode_items payload) = n # ns \<and>
            rack = strip (py_str render (result_of n))) \<and>
         (\<forall>position. map_of wells position =
            (let ns = filter (\<lambda>n. supplies_well render n \<and> well_position render n = position)
                        (iter_decode_items payload)
             in if ns = [] then None else Some (well_entry render (last ns))))"
proof -
  let ?items = "iter_decode_items payload"
  from assms have r: "first_rack render ?items = Some rack"
    and w: "wells = fold (store_well render) ?items []"
    by (auto simp: extract_scanner_results_eq split: option.splits if_splits)
  from r have "\<exists>n ns. filter supplies_rack ?items = n # ns \<and>
      rack = strip (py_str render (result_of n))"
    by (auto simp: first_rack_def rack_text_def split: list.splits)
  moreover have "\<forall>position. map_of wells position =
      (let ns = filter (\<lambda>n. supplies_well render n \<and> well_position render n = position) ?items
       in if ns = [] then None else Some (well_entry render (last ns)))"
    unfolding w by (simp add: map_of_fold_store_well Let_def)
  ultimately show ?thesis by blast
qed

theorem rack_id_from_first_node_with_result_witness:
  "extract_scanner_results plain_render skipped_rack_payload =
     Inr (''R1'', [(''A01'', [(''result'', JStr ''T1''), (''hasTube'', JBool True), (''passed'', JBool True)])]) \<and>
   filter supplies_rack (iter_decode_items skipped_rack_payload) = [rack_node ''R1''] \<and>
   ''R1'' = strip (py_str plain_render (result_of (rack_node ''R1'')))"
proof -
  have e: "extract_scanner_results plain_render skipped_rack_payload =
     Inr (''R1'', [(''A01'', [(''result'', JStr ''T1''), (''hasTube'', JBool True), (''passed'', JBool True)])])"
    by code_simp
  have f: "filter supplies_rack (iter_decode_items skipped_rack_payload) = [rack_node ''R1'']"
    by code_simp
  from rack_id_from_first_node_with_result [OF e] f
  have "''R1'' = strip (py_str plain_render (result_of (rack_node ''R1'')))"
    by simp
  with e f show ?thesis by blast
qed

text \<open>
  Claim C9. A decode node whose result is missing, empty or otherwise falsy leaves the state
  of the extractor as it is, so the extractor returns what it returns on the nodes that
  have a result. When every node with a given normalised position has no result, the map
  has no entry there and the position is reported as "no_scan".
\<close>

theorem nodes_without_result_are_skipped:
  "(\<forall>state item. has_decode item \<and> \<not> py_truthy (result_of item) \<longrightarrow>
       extract_step render state item = Inr state) \<and>
   extract_scanner_results render payload =
     extract_items render (filter has_result (iter_decode_items payload)) \<and>
   (\<forall>rack wells position sample_id.
       extract_scanner_results render payload = Inr (rack, wells) \<and>
       (\<forall>n \<in> set (iter_decode_items payload).
           well_position render n = position \<longrightarrow> \<not> py_truthy (result_of n)) \<longrightarrow>
       map_of wells position = None \<and>
       build_output_rows [(position, sample_id)] wells =
         [(position, sample_id, JStr '''', ''no_scan'')])"
proof -
  let ?items = "iter_decode_items payload"
  have step: "\<forall>state item. has_decode item \<and> \<not> py_truthy (result_of item) \<longrightarrow>
       extract_step render state item = Inr state"
  proof (intro allI impI)
    fix state :: "string option \<times> wells" and item
    assume a: "has_decode item \<and> \<not> py_truthy (result_of item)"
    obtain rack wells where s: "state = (rack, wells)" by (cases state)
    from a show "extract_step render state item = Inr state"
      unfolding s
      by (simp add: extract_step_eq supplies_rack_def supplies_well_def has_result_def)
  qed
  have "\<forall>n \<in> set (filter has_result ?items). has_decode n"
    using walk_items_decode [of payload] by auto
  then have filtered: "extract_items render (filter has_result ?items) =
     (case first_rack render (filter has_result ?items) of
        None \<Rightarrow> Inl (ValueError NoRackId)
      | Some rack \<Rightarrow>
          if \<exists>n \<in> set (filter has_result ?items). supplies_well render n
          then Inr (rack, fold (store_well render) (filter has_result ?items) [])
          else Inl (ValueError NoTubeEntries))"
    by (rule extract_items_eq)
  have same: "(\<exists>n \<in> set (filter has_result ?items). supplies_well render n) =
      (\<exists>n \<in> set ?items. supplies_well render n)"
    by (auto simp: supplies_well_def)
  have whole: "extract_scanner_results render payload =
      extract_items render (filter has_result ?items)"
    unfolding filtered same first_rack_filter fold_store_well_filter
    by (rule extract_scanner_results_eq)
  have rows: "\<forall>rack wells position sample_id.
       extract_scanner_results render payload = Inr (rack, wells) \<and>
       (\<forall>n \<in> set ?items. well_position render n = position \<longrightarrow> \<not> py_truthy (result_of n)) \<longrightarrow>
       map_of wells position = None \<and>
       build_output_rows [(position, sample_id)] wells =
         [(position, sample_id, JStr '''', ''no_scan'')]"
  proof (intro allI impI)
    fix rack wells position sample_id
    assume a: "extract_scanner_results render payload = Inr (rack, wells) \<and>
       (\<forall>n \<in> set ?items. well_position render n = position \<longrightarrow> \<not> py_truthy (result_of n))"
    then have w: "wells = fold (store_well render) ?items []"
      by (auto simp: extract_scanner_results_eq split: option.splits if_splits)
    from a have "filter (\<lambda>n. supplies_well render n \<and> well_position render n = position) ?items = []"
      by (auto simp: filter_empty_conv supplies_well_def has_result_def)
    then have "map_of wells position = None"
      unfolding w by (simp add: map_of_fold_store_well Let_def)
    then show "map_of wells position = None \<and>
       build_output_rows [(position, sample_id)] wells =
         [(position, sample_id, JStr '''', ''no_scan'')]"
      by (simp add: build_output_rows_def build_row_def)
  qed
  from step whole rows show ?thesis by blast
qed

theorem nodes_without_result_are_skipped_witness:
  "has_decode (well_node ''A2'' '''') \<and> \<not> py_truthy (result_of (well_node ''A2'' '''')) \<and>
   extract_step plain_render (None, []) (well_node ''A2'' '''') = Inr (None, []) \<and>
   extract_scanner_results plain_render empty_well_payload =
     Inr (''R1'', [(''A01'', [(''result'', JStr ''T1''), (''hasTube'', JBool True), (''passed'', JBool True)])]) \<and>
   build_output_rows [(''A02'', ''S2'')]
       [(''A01'', [(''result'', JStr ''T1''), (''hasTube'', JBool True), (''passed'', JBool True)])] =
     [(''A02'', ''S2'', JStr '''', ''no_scan'')]"
proof -
  have h: "has_decode (well_node ''A2'' '''') \<and> \<not> py_truthy (result_of (well_node ''A2'' ''''))"
    by code_simp
  have e: "extract_scanner_results plain_render empty_well_payload =
     Inr (''R1'', [(''A01'', [(''result'', JStr ''T1''), (''hasTube'', JBool True), (''passed'', JBool True)])])"
    by code_simp
  have q: "\<forall>n \<in> set (iter_decode_items empty_well_payload).
      well_position plain_render n = ''A02'' \<longrightarrow> \<not> py_truthy (result_of n)"
    by code_simp
  note fact = nodes_without_result_are_skipped [of plain_render empty_well_payload]
  from fact h have "extract_step plain_render (None, []) (well_node ''A2'' '''') = Inr (None, [])"
    by blast
  moreover from fact e q have "build_output_rows [(''A02'', ''S2'')]
       [(''A01'', [(''result'', JStr ''T1''), (''hasTube'', JBool True), (''passed'', JBool True)])] =
     [(''A02'', ''S2'', JStr '''', ''no_scan'')]"
    by blast
  ultimately show ?thesis using h e by blast
qed

section \<open>The reconciler\<close>




section \<open>The layout loader\<close>

text \<open>
  Claim C2 says that the rows ("A1","S1") and ("A01","S1") load as one entry. They load as
  two entries, one for each row.
\<close>

theorem duplicate_rows_are_kept:
  "read_layout example_csv (Inr [[''A1'', ''S1''], [''A01'', ''S1'']]) =
     Inr [(''A01'', ''S1''), (''A01'', ''S1'')] \<and>
   read_layout example_csv (Inr [[''A1'', ''S1''], [''A01'', ''S1'']]) \<noteq> Inr [(''A01'', ''S1'')]"
  by code_simp

text \<open>
  Claim C2, amended. Loading the rows ("A1","S1") and ("A01","S1") succeeds and gives the
  entry ("A01","S1") twice: a layout that loads has one entry for each row that is not
  blank, in the order of the rows. Loading rows among which two have the same normalised
  position and different sample IDs raises an error.
\<close>

theorem read_layout_duplicates:
  "read_layout p (Inr [[''A1'', ''S1''], [''A01'', ''S1'']]) =
     Inr [(''A01'', ''S1''), (''A01'', ''S1'')] \<and>
   (\<forall>rows entries. read_layout p (Inr rows) = Inr entries \<longrightarrow>
      entries = map layout_entry (filter (\<lambda>row. row \<noteq> []) rows)) \<and>
   (\<forall>rows r1 r2.
      r1 \<in> set rows \<and> r2 \<in> set rows \<and> 2 \<le> length r1 \<and> 2 \<le> length r2 \<and>
      normalize_position (Some (strip (r1 ! 0))) = normalize_position (Some (strip (r2 ! 0))) \<and>
      strip (r1 ! 1) \<noteq> strip (r2 ! 1) \<longrightarrow>
      (\<exists>e. read_layout p (Inr rows) = Inl e))"
proof -
  have ex: "read_layout p (Inr [[''A1'', ''S1''], [''A01'', ''S1'']]) =
     Inr [(''A01'', ''S1''), (''A01'', ''S1'')]"
    by code_simp
  have kept: "\<forall>rows entries. read_layout p (Inr rows) = Inr entries \<longrightarrow>
      entries = map layout_entry (filter (\<lambda>row. row \<noteq> []) rows)"
    using read_layout_success(1) by blast
  have conflict: "\<forall>rows r1 r2.
      r1 \<in> set rows \<and> r2 \<in> set rows \<and> 2 \<le> length r1 \<and> 2 \<le> length r2 \<and>
      normalize_position (Some (strip (r1 ! 0))) = normalize_position (Some (strip (r2 ! 0))) \<and>
      strip (r1 ! 1) \<noteq> strip (r2 ! 1) \<longrightarrow>
      (\<exists>e. read_layout p (Inr rows) = Inl e)"
  proof (intro allI impI)
    fix rows :: "string list list" and r1 r2 :: "string list"
    assume a: "r1 \<in> set rows \<and> r2 \<in> set rows \<and> 2 \<le> length r1 \<and> 2 \<le> length r2 \<and>
      normalize_position (Some (strip (r1 ! 0))) = normalize_position (Some (strip (r2 ! 0))) \<and>
      strip (r1 ! 1) \<noteq> strip (r2 ! 1)"
    then have "r1 \<noteq> []" "r2 \<noteq> []" by auto
    moreover from a have "fst (layout_entry r1) = fst (layout_entry r2)"
      by (simp add: layout_entry_def split: sum.splits)
    moreover from a have "snd (layout_entry r1) \<noteq> snd (layout_entry r2)"
      by (simp add: layout_entry_def split: sum.splits)
    ultimately show "\<exists>e. read_layout p (Inr rows) = Inl e"
      using a by (intro read_layout_conflict [of r1 rows r2]) auto
  qed
  from ex kept conflict show ?thesis by blast
qed

theorem read_layout_duplicates_witness:
  "read_layout example_csv (Inr [[''A1'', ''S1''], [''A01'', ''S2'']]) =
     Inl (ValueError (DuplicatePosition ''A01'' ''S1'' ''S2'')) \<and>
   normalize_position (Some (strip ''A1'')) = normalize_position (Some (strip ''A01'')) \<and>
   strip ''S1'' \<noteq> strip ''S2'' \<and>
   read_layout example_csv (Inr [[''A1'', ''S1''], [], [''A01'', ''S1'']]) =
     Inr [(''A01'', ''S1''), (''A01'', ''S1'')] \<and>
   [(''A01'', ''S1''), (''A01'', ''S1'')] =
     map layout_entry (filter (\<lambda>row. row \<noteq> []) [[''A1'', ''S1''], [], [''A01'', ''S1'']])"
proof -
  let ?rows = "[[''A1'', ''S1''], [''A01'', ''S2'']]"
  note fact = read_layout_duplicates [of example_csv]
  have h: "[''A1'', ''S1''] \<in> set ?rows \<and> [''A01'', ''S2''] \<in> set ?rows \<and>
      2 \<le> length [''A1'', ''S1''] \<and> 2 \<le> length [''A01'', ''S2''] \<and>
      normalize_position (Some (strip ([''A1'', ''S1''] ! 0))) =
        normalize_position (Some (strip ([''A01'', ''S2''] ! 0))) \<and>
      strip ([''A1'', ''S1''] ! 1) \<noteq> strip ([''A01'', ''S2''] ! 1)"
    by code_simp
  from fact h
  have "\<exists>e. read_layout example_csv (Inr ?rows) = Inl e" by blast
  moreover have "read_layout example_csv (Inr ?rows) =
     Inl (ValueError (DuplicatePosition ''A01'' ''S1'' ''S2''))" by code_simp
  moreover have "normalize_position (Some (strip ''A1'')) = normalize_position (Some (strip ''A01''))"
    by code_simp
  moreover have "strip ''S1'' \<noteq> strip ''S2''" by code_simp
  moreover have kept: "read_layout example_csv (Inr [[''A1'', ''S1''], [], [''A01'', ''S1'']]) =
     Inr [(''A01'', ''S1''), (''A01'', ''S1'')]" by code_simp
  moreover from fact kept have "[(''A01'', ''S1''), (''A01'', ''S1'')] =
     map layout_entry (filter (\<lambda>row. row \<noteq> []) [[''A1'', ''S1''], [], [''A01'', ''S1'']])"
    by blast
  ultimately show ?thesis by blast
qed

section \<open>The program\<close>

text \<open>
  Claim C5 says that the exit status 2 is produced only when the rack ID of the payload
  differs from the stem of the layout file, and that every other failure exits with 1. A run
  whose command line the argument parser rejects ends inside \<open>parse_args\<close> with the status
  2, before any layout or payload is read.
\<close>

theorem usage_error_exits_with_2:
  "main plain_render (Inl 2) (example_world matching_payload) =
     (Inl (SystemExit 2), example_world matching_payload) \<and>
   fst (program plain_render (Inl 2) (example_world matching_payload)) = 2"
  by (simp add: main_usage program_status)

text \<open>
  Claim C5, amended. A run that the argument parser ends exits with the parser's status.
  For every other run, the exit status is 2 exactly when the layout and the payload were
  loaded and the rack ID extracted from the payload differs from the stem of the layout
  file; it is 1 exactly when \<open>main\<close> raised any other exception, and 0 exactly when \<open>main\<close>
  returned.
\<close>

theorem exit_status:
  "(\<forall>status. fst (program render (Inl status) w) = status) \<and>
   (fst (program render (Inr a) w) = 2 \<longleftrightarrow>
      (\<exists>layout payload rack wells.
          read_layout (csv_path a) (csv_rows w (csv_path a)) = Inr layout \<and>
          load_payload a w = Inr payload \<and>
          extract_scanner_results render payload = Inr (rack, wells) \<and>
          rack \<noteq> stem (csv_path a))) \<and>
   (fst (program render (Inr a) w) = 1 \<longleftrightarrow>
      (\<exists>e. fst (main render (Inr a) w) = Inl e \<and> ordinary e)) \<and>
   (fst (program render (Inr a) w) = 0 \<longleftrightarrow> fst (main render (Inr a) w) = Inr 0) \<and>
   fst (program render (Inr a) w) \<in> {0, 1, 2}"
proof -
  let ?mismatch = "\<exists>layout payload rack wells.
          read_layout (csv_path a) (csv_rows w (csv_path a)) = Inr layout \<and>
          load_payload a w = Inr payload \<and>
          extract_scanner_results render payload = Inr (rack, wells) \<and>
          rack \<noteq> stem (csv_path a)"
  have usage: "\<forall>status. fst (program render (Inl status) w) = status"
    by (simp add: program_status main_usage)
  have rest: "(fst (program render (Inr a) w) = 2 \<longleftrightarrow> ?mismatch) \<and>
     (fst (program render (Inr a) w) = 1 \<longleftrightarrow>
        (\<exists>e. fst (main render (Inr a) w) = Inl e \<and> ordinary e)) \<and>
     (fst (program render (Inr a) w) = 0 \<longleftrightarrow> fst (main render (Inr a) w) = Inr 0) \<and>
     fst (program render (Inr a) w) \<in> {0, 1, 2}"
  proof (cases rule: main_cases [of render a w])
    case (failed e)
    then have m: "fst (main render (Inr a) w) = Inl e" by simp
    with failed have s: "fst (program render (Inr a) w) = 1" by (simp add: ordinary_status)
    have "\<not> ?mismatch"
    proof
      assume ?mismatch
      then have "\<exists>rack. main render (Inr a) w =
          (Inl (RackMismatchError rack (stem (csv_path a))), w)"
        using main_mismatch by blast
      with failed show False by auto
    qed
    with s m failed show ?thesis by auto
  next
    case (mismatch layout payload rack wells)
    then have "?mismatch" by blast
    moreover from mismatch have "fst (program render (Inr a) w) = 2"
      by (simp add: program_status)
    moreover from mismatch have "\<not> (\<exists>e. fst (main render (Inr a) w) = Inl e \<and> ordinary e)"
      by auto
    moreover from mismatch have "fst (main render (Inr a) w) \<noteq> Inr 0" by simp
    ultimately show ?thesis by simp
  next
    case (written layout payload wells output_path)
    then have s: "fst (program render (Inr a) w) = 0" by (simp add: program_status)
    have "\<not> ?mismatch"
    proof
      assume ?mismatch
      then have "\<exists>rack. main render (Inr a) w =
          (Inl (RackMismatchError rack (stem (csv_path a))), w)"
        using main_mismatch by blast
      with written show False by auto
    qed
    with s written show ?thesis by simp
  qed
  from usage rest show ?thesis by blast
qed

theorem exit_status_witness:
  "fst (program plain_render (Inr example_args) (example_world other_rack_payload)) = 2 \<and>
   (\<exists>layout payload rack wells.
      read_layout (csv_path example_args)
        (csv_rows (example_world other_rack_payload) (csv_path example_args)) = Inr layout \<and>
      load_payload example_args (example_world other_rack_payload) = Inr payload \<and>
      extract_scanner_results plain_render payload = Inr (rack, wells) \<and>
      rack \<noteq> stem (csv_path example_args)) \<and>
   fst (program plain_render (Inr example_args) (example_world matching_payload)) = 0 \<and>
   fst (main plain_render (Inr example_args) (example_world matching_payload)) = Inr 0"
proof -
  have two: "fst (program plain_render (Inr example_args) (example_world other_rack_payload)) = 2"
    by code_simp
  have zero: "fst (program plain_render (Inr example_args) (example_world matching_payload)) = 0"
    by code_simp
  from exit_status [of plain_render "example_world other_rack_payload" example_args] two
  have "\<exists>layout payload rack wells.
      read_layout (csv_path example_args)
        (csv_rows (example_world other_rack_payload) (csv_path example_args)) = Inr layout \<and>
      load_payload example_args (example_world other_rack_payload) = Inr payload \<and>
      extract_scanner_results plain_render payload = Inr (rack, wells) \<and>
      rack \<noteq> stem (csv_path example_args)"
    by blast
  moreover from exit_status [of plain_render "example_world matching_payload" example_args] zero
  have "fst (main plain_render (Inr example_args) (example_world matching_payload)) = Inr 0"
    by blast
  ultimately show ?thesis using two zero by blast
qed



end
